theory Spec2Isabelle
  imports Main "HOL-Library.Char_ord" "HOL-Library.List_Lexorder" "HOL-Library.Multiset"
begin

section \<open>Leveling policy\<close>

text \<open>
  JavaScript numbers that hold XP, levels and durations are modelled as \<open>int\<close>;
  ObjectIds as \<open>nat\<close>; instants (\<open>Date\<close>) as milliseconds in \<open>int\<close>.
  \<open>a || b\<close> on numbers yields \<open>b\<close> exactly when \<open>a\<close> is \<open>0\<close>.
\<close>

type_synonym oid = nat
type_synonym time = int

text \<open>
  A string that goes through \<open>String.prototype.trim\<close> is modelled as the list of its
  UTF-16 code units, so that every white space character of ECMAScript can be named.
\<close>

type_synonym code_units = "nat list"

definition js_or :: "int \<Rightarrow> int \<Rightarrow> int" where
  "js_or a b = (if a = 0 then b else a)"

definition LEVEL_THRESHOLDS :: "int list" where
  "LEVEL_THRESHOLDS = [0, 100, 300, 600, 1000, 1500, 2100, 2800, 3600, 5000, 10000, 20000]"

text \<open>
  The \<open>for\<close> loop of \<open>calculateLevel\<close>: \<open>i\<close> is the loop index, \<open>level\<close> the
  variable assigned in the body; the \<open>else\<close> branch is the \<open>break\<close>.
\<close>

function level_loop :: "int list \<Rightarrow> int \<Rightarrow> nat \<Rightarrow> int \<Rightarrow> int" where
  "level_loop ths xp i level =
     (if i < length ths then
        (if xp \<ge> ths ! i then level_loop ths xp (i + 1) (int i + 1) else level)
      else level)"
  by pat_completeness auto
termination
  by (relation "measure (\<lambda>(ths, xp, i, level). length ths - i)") auto

declare level_loop.simps [simp del]

definition calculateLevel :: "int \<Rightarrow> int" where
  "calculateLevel xp = level_loop LEVEL_THRESHOLDS xp 1 1"

section \<open>Data model\<close>

text \<open>
  The Mongoose schemas of \<open>models/Habit.js\<close> and \<open>models/User.js\<close>. Fields that no
  modelled handler reads or writes (rules, colour, rep counters, email, password) are left
  out. An entry of \<open>xpGrantedDates\<close> is either an object \<open>{date, grantedAt}\<close> or, in
  legacy data, a bare string; the toggle handler tests for both shapes.
\<close>

datatype habit_type = Solo | Battle

datatype battle_status = Pending | Active | Completed | Rejected | Waiting

datatype xp_grant = GrantStr string | GrantObj string "time option"

record habit =
  userId :: oid
  hname :: code_units
  completedDates :: "string list"
  xpGrantedDates :: "xp_grant list"
  currentStreak :: int
  partnerId :: "oid option"
  sharedGroupId :: "oid option"
  htype :: habit_type
  battleStatus :: battle_status
  battleDuration :: int
  battleStartDate :: "time option"
  battleWinner :: "oid option"
  isVisible :: bool

record hell_week =
  isActive :: bool
  startDate :: "time option"
  targetDate :: "time option"

datatype request_status = ReqPending | ReqRejected

record friend_request =
  fr_from :: oid
  fr_status :: request_status
  fr_timestamp :: time

record user =
  platformXp :: int
  level :: int
  hellWeek :: hell_week
  friendCode :: "string option"
  friends :: "oid list"
  friendRequests :: "friend_request list"

text \<open>
  The persistence store: each collection is the list of its documents in insertion order,
  keyed by \<open>_id\<close>. \<open>next_oid\<close> stands for the ObjectId generator: every
  \<open>new ObjectId()\<close> (explicit, or implicit in \<open>new Habit(...)\<close>) takes the next
  number.
\<close>

record db =
  habits :: "(oid \<times> habit) list"
  users :: "(oid \<times> user) list"
  next_oid :: nat

datatype error = NotFound string | BadRequest string | ValidationError | InternalError

text \<open>
  \<open>doc.save()\<close> on a loaded document replaces the stored document with that \<open>_id\<close>;
  the handlers below save only documents they found in the same request, so the first
  equation of \<open>save_doc\<close> is never reached by them. \<open>findById\<close> is \<open>map_of\<close>;
  \<open>findOne(filter)\<close> is \<open>find\<close>, the first match in collection order. The pre-save hook that draws a
  random \<open>friendCode\<close> for a user who has none is not modelled: a save stores the
  document as the handler left it.
\<close>

primrec save_doc :: "oid \<Rightarrow> 'a \<Rightarrow> (oid \<times> 'a) list \<Rightarrow> (oid \<times> 'a) list" where
  "save_doc k v [] = [(k, v)]"
| "save_doc k v (p # ps) = (if fst p = k then (k, v) # ps else p # save_doc k v ps)"

definition save_habit :: "oid \<Rightarrow> habit \<Rightarrow> db \<Rightarrow> db" where
  "save_habit k h s = s\<lparr>habits := save_doc k h (habits s)\<rparr>"

definition save_user :: "oid \<Rightarrow> user \<Rightarrow> db \<Rightarrow> db" where
  "save_user k u s = s\<lparr>users := save_doc k u (users s)\<rparr>"

section \<open>Habit completion ledger and XP accounting (POST /habits/:id/toggle)\<close>

definition UNDO_WINDOW_MS :: int where
  "UNDO_WINDOW_MS = 60 * 1000"

text \<open>The predicate of \<open>xpGrantedDates.find\<close>, and its negation used by \<open>filter\<close>.\<close>

fun grant_matches :: "string \<Rightarrow> xp_grant \<Rightarrow> bool" where
  "grant_matches date (GrantObj d g) = (d = date)"
| "grant_matches date (GrantStr s) = (s = date)"

text \<open>
  \<open>if (xpGrantEntry)\<close>: \<open>undefined\<close> and the empty string are falsy, every object is
  truthy.
\<close>

fun truthy_entry :: "xp_grant option \<Rightarrow> bool" where
  "truthy_entry None = False"
| "truthy_entry (Some (GrantStr s)) = (s \<noteq> [])"
| "truthy_entry (Some (GrantObj d g)) = True"

text \<open>
  \<open>xpGrantEntry.grantedAt ? new Date(xpGrantEntry.grantedAt) : null\<close>: a bare string has
  no \<open>grantedAt\<close>.
\<close>

fun grantedAt_of :: "xp_grant option \<Rightarrow> time option" where
  "grantedAt_of (Some (GrantObj d g)) = g"
| "grantedAt_of _ = None"

text \<open>
  The habit part of the handler, from \<open>indexOf\<close> to \<open>currentStreak\<close>: the new habit and
  \<open>xpChange\<close>. \<open>now\<close> is the clock reading of \<open>new Date()\<close>.
\<close>

definition toggle_habit :: "habit \<Rightarrow> string \<Rightarrow> time \<Rightarrow> habit \<times> int" where
  "toggle_habit h date now =
     (let xpGrantEntry = find (grant_matches date) (xpGrantedDates h);
          (h1, xpChange) =
            (if date \<in> set (completedDates h) then
               (let h' = h\<lparr>completedDates := remove1 date (completedDates h)\<rparr> in
                if truthy_entry xpGrantEntry then
                  (case grantedAt_of xpGrantEntry of
                     Some grantedAt \<Rightarrow>
                       if now - grantedAt < UNDO_WINDOW_MS then
                         (h'\<lparr>xpGrantedDates :=
                               filter (\<lambda>e. \<not> grant_matches date e) (xpGrantedDates h')\<rparr>, - 15)
                       else (h', 0)
                   | None \<Rightarrow> (h', 0))
                else (h', 0))
             else
               (let h' = h\<lparr>completedDates := completedDates h @ [date]\<rparr> in
                if \<not> truthy_entry xpGrantEntry then
                  (h'\<lparr>xpGrantedDates := xpGrantedDates h' @ [GrantObj date (Some now)]\<rparr>, 15)
                else (h', 0)));
          h2 = h1\<lparr>completedDates := sort (completedDates h1)\<rparr>
      in (h2\<lparr>currentStreak := int (length (completedDates h2))\<rparr>, xpChange))"

text \<open>The body of \<open>if (user && xpChange !== 0)\<close>, up to \<open>user.save()\<close>.\<close>

definition toggle_user :: "user \<Rightarrow> int \<Rightarrow> user" where
  "toggle_user u xpChange =
     (let xpChange' =
            (if isActive (hellWeek u)
             then (if xpChange > 0 then xpChange + 20 else xpChange - 20)
             else xpChange);
          xp' = max 0 (js_or (platformXp u) 0 + xpChange')
      in u\<lparr>platformXp := xp', level := max (js_or (level u) 1) (calculateLevel xp')\<rparr>)"

record toggle_response =
  resp_habit :: habit
  userLv :: "int option"
  userXp :: "int option"

definition toggle_route :: "db \<Rightarrow> oid \<Rightarrow> string \<Rightarrow> time \<Rightarrow> error + db \<times> toggle_response" where
  "toggle_route s hid date now =
     (case map_of (habits s) hid of
        None \<Rightarrow> Inl (NotFound ''Not found'')
      | Some h \<Rightarrow>
          (let (h', xpChange) = toggle_habit h date now;
               s1 = save_habit hid h' s
           in case map_of (users s1) (userId h') of
                None \<Rightarrow> Inr (s1, \<lparr>resp_habit = h', userLv = None, userXp = None\<rparr>)
              | Some u \<Rightarrow>
                  if xpChange \<noteq> 0 then
                    (let u' = toggle_user u xpChange in
                     Inr (save_user (userId h') u' s1,
                          \<lparr>resp_habit = h', userLv = Some (level u'), userXp = Some (platformXp u')\<rparr>))
                  else
                    Inr (s1, \<lparr>resp_habit = h', userLv = Some (level u), userXp = Some (platformXp u)\<rparr>)))"

text \<open>
  The serverless variant of the same route keeps no grant records: every uncheck is
  \<open>-15\<close>, every check \<open>+15\<close>, and the level is overwritten with the calculated one.
\<close>

definition sl_toggle_habit :: "habit \<Rightarrow> string \<Rightarrow> habit \<times> int" where
  "sl_toggle_habit h date =
     (let (h1, xpChange) =
            (if date \<in> set (completedDates h)
             then (h\<lparr>completedDates := remove1 date (completedDates h)\<rparr>, - 15)
             else (h\<lparr>completedDates := completedDates h @ [date]\<rparr>, 15));
          h2 = h1\<lparr>completedDates := sort (completedDates h1)\<rparr>
      in (h2\<lparr>currentStreak := int (length (completedDates h2))\<rparr>, xpChange))"

definition sl_toggle_user :: "user \<Rightarrow> int \<Rightarrow> user" where
  "sl_toggle_user u xpChange =
     (let xpChange' =
            (if isActive (hellWeek u)
             then (if xpChange > 0 then xpChange + 20 else xpChange - 20)
             else xpChange);
          xp' = max 0 (js_or (platformXp u) 0 + xpChange')
      in u\<lparr>platformXp := xp', level := calculateLevel xp'\<rparr>)"

definition sl_toggle_route :: "db \<Rightarrow> oid \<Rightarrow> string \<Rightarrow> error + db \<times> toggle_response" where
  "sl_toggle_route s hid date =
     (case map_of (habits s) hid of
        None \<Rightarrow> Inl (NotFound ''Not found'')
      | Some h \<Rightarrow>
          (let (h', xpChange) = sl_toggle_habit h date;
               s1 = save_habit hid h' s
           in case map_of (users s1) (userId h') of
                None \<Rightarrow> Inr (s1, \<lparr>resp_habit = h', userLv = None, userXp = None\<rparr>)
              | Some u \<Rightarrow>
                  (let u' = sl_toggle_user u xpChange in
                   Inr (save_user (userId h') u' s1,
                        \<lparr>resp_habit = h', userLv = Some (level u'), userXp = Some (platformXp u')\<rparr>))))"

section \<open>Hell Week (POST /user/:userId/hell-week)\<close>

datatype hw_action = Start | Surrender | Fail | Complete | OtherAction

text \<open>
  \<open>t_start\<close> is the reading of \<open>new Date()\<close>, \<open>t_now\<close> that of \<open>Date.now()\<close> in the
  same object literal. An action other than the four named ones falls through every
  branch: nothing is saved.
\<close>

definition hell_week_route :: "db \<Rightarrow> oid \<Rightarrow> hw_action \<Rightarrow> time \<Rightarrow> time \<Rightarrow> error + db" where
  "hell_week_route s uid action t_start t_now =
     (case map_of (users s) uid of
        None \<Rightarrow> Inl (NotFound ''User not found'')
      | Some u \<Rightarrow>
          (case action of
             Start \<Rightarrow>
               if isActive (hellWeek u) then Inl (BadRequest ''Already in hell'')
               else if js_or (level u) 1 < 4 then Inl (BadRequest ''Hell Week requires Level 4'')
               else Inr (save_user uid
                      (u\<lparr>hellWeek := \<lparr>isActive = True, startDate = Some t_start,
                                       targetDate = Some (t_now + 7 * 24 * 60 * 60 * 1000)\<rparr>\<rparr>) s)
           | Surrender \<Rightarrow>
               Inr (save_user uid
                      (u\<lparr>hellWeek := \<lparr>isActive = False, startDate = None, targetDate = None\<rparr>,
                         platformXp := max 0 (platformXp u - 700)\<rparr>) s)
           | Fail \<Rightarrow>
               Inr (save_user uid
                      (u\<lparr>hellWeek := \<lparr>isActive = False, startDate = None, targetDate = None\<rparr>,
                         platformXp := max 0 (platformXp u - 500)\<rparr>) s)
           | Complete \<Rightarrow>
               (let xp' = js_or (platformXp u) 0 + 1000 in
                Inr (save_user uid
                      (u\<lparr>hellWeek := \<lparr>isActive = False, startDate = None, targetDate = None\<rparr>,
                         platformXp := xp',
                         level := max (js_or (level u) 1) (calculateLevel xp')\<rparr>) s))
           | OtherAction \<Rightarrow> Inr s))"

text \<open>
  The serverless variant knows \<open>start\<close> and \<open>surrender\<close> only, and saves the user after
  the branch, whatever the action.
\<close>

definition sl_hell_week_route :: "db \<Rightarrow> oid \<Rightarrow> hw_action \<Rightarrow> time \<Rightarrow> time \<Rightarrow> error + db" where
  "sl_hell_week_route s uid action t_start t_now =
     (case map_of (users s) uid of
        None \<Rightarrow> Inl (NotFound ''User not found'')
      | Some u \<Rightarrow>
          (case action of
             Start \<Rightarrow>
               if isActive (hellWeek u) then Inl (BadRequest ''Already in hell'')
               else Inr (save_user uid
                      (u\<lparr>hellWeek := \<lparr>isActive = True, startDate = Some t_start,
                                       targetDate = Some (t_now + 7 * 24 * 60 * 60 * 1000)\<rparr>\<rparr>) s)
           | Surrender \<Rightarrow>
               Inr (save_user uid
                      (u\<lparr>hellWeek := \<lparr>isActive = False, startDate = None, targetDate = None\<rparr>,
                         platformXp := max 0 (platformXp u - 500)\<rparr>) s)
           | _ \<Rightarrow> Inr (save_user uid u s)))"

section \<open>User details with level self-healing (GET /user/:id)\<close>

text \<open>
  The route first saves a user who has no \<open>friendCode\<close>, so that the pre-save hook
  assigns one; that step is outside the model (see the store). What follows is the level
  recomputation of the two variants.
\<close>

definition get_user_route :: "db \<Rightarrow> oid \<Rightarrow> error + db \<times> user" where
  "get_user_route s uid =
     (case map_of (users s) uid of
        None \<Rightarrow> Inl (NotFound ''User not found'')
      | Some u \<Rightarrow>
          (let calculatedLevel = calculateLevel (js_or (platformXp u) 0) in
           if calculatedLevel > js_or (level u) 1 then
             (let u' = u\<lparr>level := calculatedLevel\<rparr> in Inr (save_user uid u' s, u'))
           else Inr (s, u)))"

definition sl_get_user_route :: "db \<Rightarrow> oid \<Rightarrow> error + db \<times> user" where
  "sl_get_user_route s uid =
     (case map_of (users s) uid of
        None \<Rightarrow> Inl (NotFound ''User not found'')
      | Some u \<Rightarrow>
          (let calculatedLevel = calculateLevel (js_or (platformXp u) 0) in
           if level u \<noteq> calculatedLevel then
             (let u' = u\<lparr>level := calculatedLevel\<rparr> in Inr (save_user uid u' s, u'))
           else Inr (s, u)))"

section \<open>Creating a habit, solo or as a battle invite (POST /habits)\<close>

text \<open>
  The request body: \<open>partnerId\<close> and \<open>battleDuration\<close> are taken out, the rest is
  \<open>habitData\<close>, spread into both documents before the handler's own fields. \<open>None\<close> is
  an absent (or falsy) field. Of \<open>habitData\<close> the model keeps \<open>userId\<close>, \<open>name\<close> and
  \<open>isVisible\<close>; the other fields of a new document take their schema defaults.
\<close>

record create_request =
  req_userId :: "oid option"
  req_name :: "code_units option"
  req_isVisible :: "bool option"
  req_partnerId :: "oid option"
  req_battleDuration :: "int option"

text \<open>
  The schema's \<open>trim: true\<close> is \<open>String.prototype.trim\<close>: it strips, at both ends, the
  code units of ECMAScript's WhiteSpace (tab, vertical tab, form feed, space, no-break
  space, the byte order mark and the space separators of Unicode) and LineTerminator (line
  feed, carriage return, line and paragraph separator).
\<close>

definition is_ws :: "nat \<Rightarrow> bool" where
  "is_ws c =
     (c \<in> set [0x0009, 0x000A, 0x000B, 0x000C, 0x000D, 0x0020, 0x00A0, 0x1680,
                0x2000, 0x2001, 0x2002, 0x2003, 0x2004, 0x2005, 0x2006, 0x2007, 0x2008,
                0x2009, 0x200A, 0x2028, 0x2029, 0x202F, 0x205F, 0x3000, 0xFEFF])"

definition trim :: "code_units \<Rightarrow> code_units" where
  "trim s = rev (dropWhile is_ws (rev (dropWhile is_ws s)))"

text \<open>
  \<open>new Habit({...})\<close>: schema defaults under the fields given. The schema requires
  \<open>userId\<close> and \<open>name\<close> (trimmed, not empty); \<open>save()\<close> rejects the document
  otherwise and the handler answers 400. The partner's document has the creator's
  \<open>name\<close> and the partner as \<open>userId\<close>, so its save passes whenever the creator's did.
\<close>

definition new_habit ::
  "create_request \<Rightarrow> oid option \<Rightarrow> oid option \<Rightarrow> oid option \<Rightarrow> habit_type \<Rightarrow>
   battle_status \<Rightarrow> bool option \<Rightarrow> int \<Rightarrow> error + habit" where
  "new_habit habitData uid pid gid ty st vis dur =
     (case (uid, req_name habitData) of
        (Some u, Some n) \<Rightarrow>
          if trim n = [] then Inl ValidationError
          else Inr \<lparr>userId = u, hname = trim n, completedDates = [], xpGrantedDates = [],
                    currentStreak = 0, partnerId = pid, sharedGroupId = gid, htype = ty,
                    battleStatus = st, battleDuration = dur, battleStartDate = None,
                    battleWinner = None,
                    isVisible = (case vis of None \<Rightarrow> True | Some b \<Rightarrow> b)\<rparr>
      | _ \<Rightarrow> Inl ValidationError)"

definition duration_or_7 :: "int option \<Rightarrow> int" where
  "duration_or_7 d = (case d of None \<Rightarrow> 7 | Some n \<Rightarrow> js_or n 7)"

definition create_habit_route :: "db \<Rightarrow> create_request \<Rightarrow> error + db \<times> habit" where
  "create_habit_route s body =
     (case req_partnerId body of
        None \<Rightarrow>
          (case new_habit body (req_userId body) None None Solo Active (Some True)
                  (duration_or_7 (req_battleDuration body)) of
             Inl e \<Rightarrow> Inl e
           | Inr habit \<Rightarrow>
               Inr (s\<lparr>habits := habits s @ [(next_oid s, habit)], next_oid := next_oid s + 1\<rparr>,
                    habit))
      | Some partner \<Rightarrow>
          (let sharedGroupId = next_oid s in
           case new_habit body (req_userId body) (Some partner) (Some sharedGroupId) Battle Waiting
                  (Some False) (duration_or_7 (req_battleDuration body)) of
             Inl e \<Rightarrow> Inl e
           | Inr habit \<Rightarrow>
               (case new_habit body (Some partner) (req_userId body) (Some sharedGroupId) Battle
                       Pending (Some False) (duration_or_7 (req_battleDuration body)) of
                  Inl e \<Rightarrow> Inl e
                | Inr partnerHabit \<Rightarrow>
                    Inr (s\<lparr>habits := habits s @ [(next_oid s + 1, habit),
                                                  (next_oid s + 2, partnerHabit)],
                           next_oid := next_oid s + 3\<rparr>,
                         habit))))"

text \<open>
  Every \<open>_id\<close> and every group id in the store came out of the generator: the
  condition under which the generator's next value is unused.
\<close>

definition ids_allocated :: "db \<Rightarrow> bool" where
  "ids_allocated s =
     list_all (\<lambda>(k, h). k < next_oid s \<and> (case sharedGroupId h of None \<Rightarrow> True | Some g \<Rightarrow> g < next_oid s))
       (habits s)"

text \<open>
  The serverless variant does not set \<open>isVisible\<close> on the creator's document: it is the
  body's value, or the schema default.
\<close>

definition sl_create_habit_route :: "db \<Rightarrow> create_request \<Rightarrow> error + db \<times> habit" where
  "sl_create_habit_route s body =
     (case req_partnerId body of
        None \<Rightarrow>
          (case new_habit body (req_userId body) None None Solo Active (req_isVisible body)
                  (duration_or_7 (req_battleDuration body)) of
             Inl e \<Rightarrow> Inl e
           | Inr habit \<Rightarrow>
               Inr (s\<lparr>habits := habits s @ [(next_oid s, habit)], next_oid := next_oid s + 1\<rparr>,
                    habit))
      | Some partner \<Rightarrow>
          (let sharedGroupId = next_oid s in
           case new_habit body (req_userId body) (Some partner) (Some sharedGroupId) Battle Waiting
                  (req_isVisible body) (duration_or_7 (req_battleDuration body)) of
             Inl e \<Rightarrow> Inl e
           | Inr habit \<Rightarrow>
               (case new_habit body (Some partner) (req_userId body) (Some sharedGroupId) Battle
                       Pending (Some False) (duration_or_7 (req_battleDuration body)) of
                  Inl e \<Rightarrow> Inl e
                | Inr partnerHabit \<Rightarrow>
                    Inr (s\<lparr>habits := habits s @ [(next_oid s + 1, habit),
                                                  (next_oid s + 2, partnerHabit)],
                           next_oid := next_oid s + 3\<rparr>,
                         habit))))"

section \<open>Surrendering a battle (POST /battles/surrender)\<close>

text \<open>
  \<open>Habit.findOne({sharedGroupId: myHabit.sharedGroupId, _id: {$ne: myHabit._id}})\<close>: the
  first other document of the same group.
\<close>

definition find_opponent :: "db \<Rightarrow> oid \<Rightarrow> habit \<Rightarrow> (oid \<times> habit) option" where
  "find_opponent s habitId myHabit =
     find (\<lambda>(k, h). sharedGroupId h = sharedGroupId myHabit \<and> k \<noteq> habitId) (habits s)"

definition surrender_route :: "db \<Rightarrow> oid \<Rightarrow> error + db" where
  "surrender_route s habitId =
     (case map_of (habits s) habitId of
        None \<Rightarrow> Inl (NotFound ''Habit not found'')
      | Some myHabit \<Rightarrow>
          (let opponentHabit = find_opponent s habitId myHabit;
               myHabit' = myHabit\<lparr>battleStatus := Completed, battleWinner := partnerId myHabit\<rparr>;
               s1 = (case opponentHabit of
                       None \<Rightarrow> s
                     | Some (k, oh) \<Rightarrow>
                         save_habit k (oh\<lparr>battleStatus := Completed,
                                          battleWinner := partnerId myHabit\<rparr>) s);
               s2 = save_habit habitId myHabit' s1
           in case map_of (users s2) (userId myHabit) of
                None \<Rightarrow> Inr s2
              | Some u \<Rightarrow>
                  Inr (save_user (userId myHabit)
                         (u\<lparr>platformXp := max 0 (js_or (platformXp u) 0 - 100)\<rparr>) s2)))"

section \<open>Friend graph (POST /social/add-friend, POST /social/handle-request)\<close>

definition to_upper :: "char \<Rightarrow> char" where
  "to_upper c =
     (if CHR ''a'' \<le> c \<and> c \<le> CHR ''z'' then char_of (of_char c - (32::nat)) else c)"

text \<open>
  The checks in the order of the source. \<open>sender.id\<close> on a sender that was not found
  throws, which the handler answers with 500. \<open>now\<close> is the default of the request's
  \<open>timestamp\<close>.
\<close>

definition add_friend_route :: "db \<Rightarrow> oid \<Rightarrow> string \<Rightarrow> time \<Rightarrow> error + db" where
  "add_friend_route s uid code now =
     (let sender = map_of (users s) uid;
          target = find (\<lambda>(k, u). friendCode u = Some (map to_upper code)) (users s)
      in case target of
           None \<Rightarrow> Inl (NotFound ''User not found with this code.'')
         | Some (tid, t) \<Rightarrow>
             (case sender of
                None \<Rightarrow> Inl InternalError
              | Some sd \<Rightarrow>
                  if uid = tid then Inl (BadRequest ''You cannot add yourself.'')
                  else if tid \<in> set (friends sd) then Inl (BadRequest ''Already friends.'')
                  else if find (\<lambda>r. fr_from r = uid) (friendRequests t) \<noteq> None
                    then Inl (BadRequest ''Request already sent.'')
                  else Inr (save_user tid
                         (t\<lparr>friendRequests := friendRequests t @
                               [\<lparr>fr_from = uid, fr_status = ReqPending, fr_timestamp = now\<rparr>]\<rparr>) s)))"

datatype request_action = Accept | Reject

text \<open>
  \<open>user\<close> and \<open>requester\<close> are loaded before either is changed; the requester is saved
  first, then the user. Any action other than \<open>accept\<close> only removes the request.
  A save writes the whole document back; when \<open>uid\<close> and \<open>requesterId\<close> are the same
  user the two loaded copies stand for one stored document, a case the theorems leave out.
\<close>

definition handle_request_route :: "db \<Rightarrow> oid \<Rightarrow> oid \<Rightarrow> request_action \<Rightarrow> error + db" where
  "handle_request_route s uid requesterId action =
     (case (map_of (users s) uid, map_of (users s) requesterId) of
        (Some u, Some requester) \<Rightarrow>
          (let u1 = u\<lparr>friendRequests :=
                       filter (\<lambda>r. fr_from r \<noteq> requesterId) (friendRequests u)\<rparr>
           in if action = Accept then
                (let u2 = (if requesterId \<in> set (friends u1) then u1
                           else u1\<lparr>friends := friends u1 @ [requesterId]\<rparr>);
                     requester' = (if uid \<in> set (friends requester) then requester
                                   else requester\<lparr>friends := friends requester @ [uid]\<rparr>)
                 in Inr (save_user uid u2 (save_user requesterId requester' s)))
              else Inr (save_user uid u1 s))
      | _ \<Rightarrow> Inl (NotFound ''User not found''))"

section \<open>Example data\<close>

text \<open>
  A small store used to run the theorems below on concrete input. The habit names are
  \<open>Read\<close>, \<open>Run\<close> and \<open>Pushups\<close>, in code units.
\<close>

definition ex_habit :: habit where
  "ex_habit = \<lparr>userId = 7, hname = [0x52, 0x65, 0x61, 0x64], completedDates = [''2024-05-01''],
     xpGrantedDates = [GrantObj ''2024-05-01'' (Some 1000)], currentStreak = 1,
     partnerId = None, sharedGroupId = None, htype = Solo, battleStatus = Active,
     battleDuration = 7, battleStartDate = None, battleWinner = None, isVisible = True\<rparr>"

definition ex_user :: user where
  "ex_user = \<lparr>platformXp = 10, level = 1,
     hellWeek = \<lparr>isActive = True, startDate = Some 0, targetDate = Some 604800000\<rparr>,
     friendCode = Some ''AB12C'', friends = [], friendRequests = []\<rparr>"

definition ex_novice :: user where
  "ex_novice = \<lparr>platformXp = 40, level = 1,
     hellWeek = \<lparr>isActive = False, startDate = None, targetDate = None\<rparr>,
     friendCode = Some ''NOV1C'', friends = [], friendRequests = []\<rparr>"

definition ex_veteran :: user where
  "ex_veteran = \<lparr>platformXp = 50, level = 4,
     hellWeek = \<lparr>isActive = False, startDate = None, targetDate = None\<rparr>,
     friendCode = Some ''VET3R'', friends = [], friendRequests = []\<rparr>"

definition ex_battle :: "oid \<Rightarrow> oid \<Rightarrow> habit" where
  "ex_battle owner rival = \<lparr>userId = owner, hname = [0x52, 0x75, 0x6E], completedDates = [],
     xpGrantedDates = [], currentStreak = 0, partnerId = Some rival, sharedGroupId = Some 20,
     htype = Battle, battleStatus = Active, battleDuration = 7, battleStartDate = Some 500,
     battleWinner = None, isVisible = True\<rparr>"

definition ex_db :: db where
  "ex_db = \<lparr>habits = [(11, ex_habit), (21, ex_battle 8 9), (22, ex_battle 9 8)],
            users = [(7, ex_user), (8, ex_novice), (9, ex_veteran)], next_oid = 30\<rparr>"

definition ex_body :: create_request where
  "ex_body = \<lparr>req_userId = Some 8, req_name = Some [0x50, 0x75, 0x73, 0x68, 0x75, 0x70, 0x73], req_isVisible = None,
              req_partnerId = Some 9, req_battleDuration = None\<rparr>"

definition ex_creator :: habit where
  "ex_creator = \<lparr>userId = 8, hname = [0x50, 0x75, 0x73, 0x68, 0x75, 0x70, 0x73], completedDates = [], xpGrantedDates = [],
     currentStreak = 0, partnerId = Some 9, sharedGroupId = Some 30, htype = Battle,
     battleStatus = Waiting, battleDuration = 7, battleStartDate = None, battleWinner = None,
     isVisible = False\<rparr>"

definition ex_invitee :: habit where
  "ex_invitee = \<lparr>userId = 9, hname = [0x50, 0x75, 0x73, 0x68, 0x75, 0x70, 0x73], completedDates = [], xpGrantedDates = [],
     currentStreak = 0, partnerId = Some 8, sharedGroupId = Some 30, htype = Battle,
     battleStatus = Pending, battleDuration = 7, battleStartDate = None, battleWinner = None,
     isVisible = False\<rparr>"

section \<open>Properties of the store\<close>

lemma map_of_save_doc: "map_of (save_doc k v al) = (map_of al)(k \<mapsto> v)"
  by (induction al) auto

lemma save_doc_keys: "fst ` set (save_doc k v al) = insert k (fst ` set al)"
  by (induction al) auto

lemma habits_save_user [simp]: "habits (save_user k u s) = habits s"
  by (simp add: save_user_def)

lemma users_save_habit [simp]: "users (save_habit k h s) = users s"
  by (simp add: save_habit_def)

lemma find_user_save_user [simp]:
  "map_of (users (save_user k u s)) k' = (if k' = k then Some u else map_of (users s) k')"
  by (simp add: save_user_def map_of_save_doc)

lemma find_habit_save_habit [simp]:
  "map_of (habits (save_habit k h s)) k' = (if k' = k then Some h else map_of (habits s) k')"
  by (simp add: save_habit_def map_of_save_doc)

section \<open>Properties of the leveling policy\<close>

lemma level_loop_ge: "lv \<le> int i \<Longrightarrow> lv \<le> level_loop ths xp i lv"
proof (induction ths xp i lv rule: level_loop.induct)
  case (1 ths xp i lv)
  show ?case
  proof (cases "i < length ths \<and> ths ! i \<le> xp")
    case True
    then have "int i + 1 \<le> level_loop ths xp (i + 1) (int i + 1)"
      using "1.IH" by simp
    with True "1.prems" show ?thesis
      by (subst level_loop.simps) simp
  next
    case False
    then show ?thesis
      by (subst level_loop.simps) auto
  qed
qed

lemma level_loop_mono:
  "a \<le> b \<Longrightarrow> la \<le> lb \<Longrightarrow> lb \<le> int i \<Longrightarrow>
   level_loop ths a i la \<le> level_loop ths b i lb"
proof (induction ths a i la arbitrary: lb rule: level_loop.induct)
  case (1 ths a i la)
  show ?case
  proof (cases "i < length ths")
    case False
    then show ?thesis
      using "1.prems" by (simp add: level_loop.simps [of ths _ i])
  next
    case inb: True
    show ?thesis
    proof (cases "ths ! i \<le> a")
      case True
      then have "ths ! i \<le> b" using "1.prems" by simp
      moreover have "level_loop ths a (i + 1) (int i + 1) \<le> level_loop ths b (i + 1) (int i + 1)"
        using "1.IH" [OF inb True] "1.prems" by simp
      ultimately show ?thesis
        using inb True by (simp add: level_loop.simps [of ths _ i])
    next
      case False
      have "la \<le> level_loop ths b i lb"
        using level_loop_ge [of lb i ths b] "1.prems" by simp
      then show ?thesis
        using inb False by (simp add: level_loop.simps [of ths a i])
    qed
  qed
qed

lemma calculateLevel_ge_1: "1 \<le> calculateLevel xp"
  unfolding calculateLevel_def by (rule level_loop_ge) simp

lemma calculateLevel_mono: "a \<le> b \<Longrightarrow> calculateLevel a \<le> calculateLevel b"
  unfolding calculateLevel_def by (rule level_loop_mono) simp_all

text \<open>
  C8. \<open>calculateLevel\<close> is monotonic non-decreasing over the non-negative integers, and on
  the threshold table of the system it maps 0 to level 1, 100 to level 2, 20000 to level 12
  and 19999 to level 11.
\<close>

theorem C8_calculateLevel_monotone_and_values:
  "(\<forall>a b. 0 \<le> a \<and> a \<le> b \<longrightarrow> calculateLevel a \<le> calculateLevel b)
   \<and> calculateLevel 0 = 1 \<and> calculateLevel 100 = 2
   \<and> calculateLevel 20000 = 12 \<and> calculateLevel 19999 = 11"
proof -
  have "calculateLevel 0 = 1"
    by (simp add: calculateLevel_def LEVEL_THRESHOLDS_def level_loop.simps)
  moreover have "calculateLevel 100 = 2"
    by (simp add: calculateLevel_def LEVEL_THRESHOLDS_def level_loop.simps)
  moreover have "calculateLevel 20000 = 12"
    by (simp add: calculateLevel_def LEVEL_THRESHOLDS_def level_loop.simps)
  moreover have "calculateLevel 19999 = 11"
    by (simp add: calculateLevel_def LEVEL_THRESHOLDS_def level_loop.simps)
  ultimately show ?thesis
    using calculateLevel_mono by blast
qed

theorem C8_witness:
  "(0::int) \<le> 250 \<and> (250::int) \<le> 4000 \<and> calculateLevel 250 \<le> calculateLevel 4000
   \<and> calculateLevel 250 = 2 \<and> calculateLevel 4000 = 9"
proof -
  have "calculateLevel 250 \<le> calculateLevel 4000"
    using C8_calculateLevel_monotone_and_values by simp
  moreover have "calculateLevel 250 = 2"
    by (simp add: calculateLevel_def LEVEL_THRESHOLDS_def level_loop.simps)
  moreover have "calculateLevel 4000 = 9"
    by (simp add: calculateLevel_def LEVEL_THRESHOLDS_def level_loop.simps)
  ultimately show ?thesis by simp
qed

section \<open>Properties of the habit toggle\<close>

lemma toggle_habit_userId: "userId (fst (toggle_habit h date now)) = userId h"
  by (simp add: toggle_habit_def Let_def split: option.splits)

lemma toggle_habit_check_fresh:
  assumes "date \<notin> set (completedDates h)"
    and "\<not> truthy_entry (find (grant_matches date) (xpGrantedDates h))"
  shows "toggle_habit h date now =
     (h\<lparr>completedDates := sort (completedDates h @ [date]),
        xpGrantedDates := xpGrantedDates h @ [GrantObj date (Some now)],
        currentStreak := int (length (completedDates h)) + 1\<rparr>, 15)"
  using assms by (simp add: toggle_habit_def Let_def)

lemma toggle_habit_recheck:
  assumes "date \<notin> set (completedDates h)"
    and "truthy_entry (find (grant_matches date) (xpGrantedDates h))"
  shows "toggle_habit h date now =
     (h\<lparr>completedDates := sort (completedDates h @ [date]),
        currentStreak := int (length (completedDates h)) + 1\<rparr>, 0)"
  using assms by (simp add: toggle_habit_def Let_def)

lemma toggle_habit_undo:
  assumes "date \<in> set (completedDates h)"
    and "find (grant_matches date) (xpGrantedDates h) = Some (GrantObj d (Some g))"
    and "now - g < UNDO_WINDOW_MS"
  shows "toggle_habit h date now =
     (h\<lparr>completedDates := sort (remove1 date (completedDates h)),
        xpGrantedDates := filter (\<lambda>e. \<not> grant_matches date e) (xpGrantedDates h),
        currentStreak := int (length (completedDates h) - 1)\<rparr>, - 15)"
  using assms by (simp add: toggle_habit_def Let_def length_remove1)

lemma toggle_habit_late:
  assumes "date \<in> set (completedDates h)"
    and "find (grant_matches date) (xpGrantedDates h) = Some (GrantObj d (Some g))"
    and "\<not> now - g < UNDO_WINDOW_MS"
  shows "toggle_habit h date now =
     (h\<lparr>completedDates := sort (remove1 date (completedDates h)),
        currentStreak := int (length (completedDates h) - 1)\<rparr>, 0)"
  using assms by (simp add: toggle_habit_def Let_def length_remove1)

lemma toggle_route_found:
  assumes "map_of (habits s) hid = Some h"
  shows "toggle_route s hid date now =
     (let h' = fst (toggle_habit h date now); xpChange = snd (toggle_habit h date now);
          s1 = save_habit hid h' s
      in case map_of (users s) (userId h) of
           None \<Rightarrow> Inr (s1, \<lparr>resp_habit = h', userLv = None, userXp = None\<rparr>)
         | Some u \<Rightarrow>
             if xpChange \<noteq> 0 then
               Inr (save_user (userId h) (toggle_user u xpChange) s1,
                    \<lparr>resp_habit = h', userLv = Some (level (toggle_user u xpChange)),
                     userXp = Some (platformXp (toggle_user u xpChange))\<rparr>)
             else Inr (s1, \<lparr>resp_habit = h', userLv = Some (level u), userXp = Some (platformXp u)\<rparr>))"
  using assms toggle_habit_userId [of h date now]
  by (simp add: toggle_route_def Let_def split_beta split: option.splits)


lemma find_snoc_None:
  "find P xs = None \<Longrightarrow> find P (xs @ [x]) = (if P x then Some x else None)"
  by (induction xs) (auto split: if_splits)

lemma filter_no_match: "find P xs = None \<Longrightarrow> filter (\<lambda>e. \<not> P e) xs = xs"
  by (induction xs) (auto split: if_splits)

lemma toggle_user_hellWeek [simp]: "hellWeek (toggle_user u x) = hellWeek u"
  by (simp add: toggle_user_def Let_def)

lemma toggle_user_xp_nonneg: "0 \<le> platformXp (toggle_user u x)"
  by (simp add: toggle_user_def Let_def)

lemma toggle_user_check_undo:
  "0 \<le> platformXp u \<Longrightarrow> platformXp (toggle_user (toggle_user u 15) (- 15)) = platformXp u"
  by (simp add: toggle_user_def Let_def js_or_def)

text \<open>
  C3. For a habit and a date that is not completed and has no grant record, toggling the
  date twice, the second time less than 60 seconds after the grant, signals \<open>+15\<close> and
  then \<open>-15\<close>; afterwards the date is not in \<open>completedDates\<close>, no grant record for it
  is left, and the owner's \<open>platformXp\<close> (a non-negative number) is what it was before.
\<close>

theorem C3_check_then_undo:
  assumes hab: "map_of (habits s) hid = Some h"
    and fresh: "date \<notin> set (completedDates h)"
    and nogrant: "find (grant_matches date) (xpGrantedDates h) = None"
    and win: "now2 - now1 < UNDO_WINDOW_MS"
    and nonneg: "\<forall>u. map_of (users s) (userId h) = Some u \<longrightarrow> 0 \<le> platformXp u"
  shows "\<exists>s1 r1 s2 r2 h1 h2.
           toggle_route s hid date now1 = Inr (s1, r1)
         \<and> toggle_route s1 hid date now2 = Inr (s2, r2)
         \<and> toggle_habit h date now1 = (h1, 15)
         \<and> toggle_habit h1 date now2 = (h2, - 15)
         \<and> map_of (habits s2) hid = Some h2
         \<and> date \<notin> set (completedDates h2)
         \<and> find (grant_matches date) (xpGrantedDates h2) = None
         \<and> xpGrantedDates h2 = xpGrantedDates h
         \<and> map_option platformXp (map_of (users s2) (userId h))
             = map_option platformXp (map_of (users s) (userId h))
         \<and> userXp r2 = map_option platformXp (map_of (users s) (userId h))"
proof -
  define h1 where "h1 = h\<lparr>completedDates := sort (completedDates h @ [date]),
        xpGrantedDates := xpGrantedDates h @ [GrantObj date (Some now1)],
        currentStreak := int (length (completedDates h)) + 1\<rparr>"
  define h2 where "h2 = h1\<lparr>completedDates := sort (remove1 date (completedDates h1)),
        xpGrantedDates := filter (\<lambda>e. \<not> grant_matches date e) (xpGrantedDates h1),
        currentStreak := int (length (completedDates h1) - 1)\<rparr>"
  have t1: "toggle_habit h date now1 = (h1, 15)"
    unfolding h1_def using fresh nogrant by (simp add: toggle_habit_check_fresh)
  have in1: "date \<in> set (completedDates h1)"
    by (simp add: h1_def)
  have g1: "find (grant_matches date) (xpGrantedDates h1) = Some (GrantObj date (Some now1))"
    using nogrant by (simp add: h1_def find_snoc_None)
  have t2: "toggle_habit h1 date now2 = (h2, - 15)"
    unfolding h2_def using in1 g1 win by (rule toggle_habit_undo)
  have uid1: "userId h1 = userId h"
    by (simp add: h1_def)
  have grants2: "xpGrantedDates h2 = xpGrantedDates h"
    using nogrant by (simp add: h2_def h1_def filter_no_match)
  have "mset (completedDates h2) = mset (completedDates h)"
    by (simp add: h2_def h1_def)
  then have "set (completedDates h2) = set (completedDates h)"
    by (rule mset_eq_setD)
  then have cd2: "date \<notin> set (completedDates h2)"
    using fresh by simp
  show ?thesis
  proof (cases "map_of (users s) (userId h)")
    case None
    define s1 where "s1 = save_habit hid h1 s"
    define s2 where "s2 = save_habit hid h2 s1"
    have r1: "toggle_route s hid date now1 = Inr (s1, \<lparr>resp_habit = h1, userLv = None, userXp = None\<rparr>)"
      using hab None t1 by (simp add: toggle_route_found s1_def)
    have hab1: "map_of (habits s1) hid = Some h1"
      by (simp add: s1_def)
    have none1: "map_of (users s1) (userId h1) = None"
      using None by (simp add: s1_def uid1)
    have r2: "toggle_route s1 hid date now2 = Inr (s2, \<lparr>resp_habit = h2, userLv = None, userXp = None\<rparr>)"
      using t2 none1 by (simp add: toggle_route_found [OF hab1] s2_def)
    have "map_of (habits s2) hid = Some h2"
      by (simp add: s2_def)
    moreover have "map_of (users s2) (userId h) = None"
      using None by (simp add: s2_def s1_def)
    ultimately show ?thesis
      using r1 r2 t1 t2 cd2 grants2 nogrant None by simp
  next
    case (Some u)
    define u1 where "u1 = toggle_user u 15"
    define u2 where "u2 = toggle_user u1 (- 15)"
    define s1 where "s1 = save_user (userId h) u1 (save_habit hid h1 s)"
    define s2 where "s2 = save_user (userId h) u2 (save_habit hid h2 s1)"
    have r1: "toggle_route s hid date now1 =
        Inr (s1, \<lparr>resp_habit = h1, userLv = Some (level u1), userXp = Some (platformXp u1)\<rparr>)"
      using hab Some t1 by (simp add: toggle_route_found s1_def u1_def)
    have hab1: "map_of (habits s1) hid = Some h1"
      by (simp add: s1_def)
    have some1: "map_of (users s1) (userId h1) = Some u1"
      by (simp add: s1_def uid1)
    have r2: "toggle_route s1 hid date now2 =
        Inr (s2, \<lparr>resp_habit = h2, userLv = Some (level u2), userXp = Some (platformXp u2)\<rparr>)"
      using t2 some1 by (simp add: toggle_route_found [OF hab1] s2_def u2_def uid1)
    have xp: "platformXp u2 = platformXp u"
      unfolding u2_def u1_def using nonneg Some by (simp add: toggle_user_check_undo)
    have "map_of (habits s2) hid = Some h2"
      by (simp add: s2_def)
    moreover have "map_of (users s2) (userId h) = Some u2"
      by (simp add: s2_def)
    ultimately show ?thesis
      using r1 r2 t1 t2 cd2 grants2 nogrant Some xp by simp
  qed
qed


theorem C3_witness:
  "\<exists>s1 r1 s2 r2.
      toggle_route ex_db 11 ''2024-05-02'' 5000 = Inr (s1, r1)
    \<and> toggle_route s1 11 ''2024-05-02'' 9000 = Inr (s2, r2)
    \<and> userXp r2 = Some 10"
proof -
  have a: "map_of (habits ex_db) 11 = Some ex_habit"
    by (simp add: ex_db_def)
  have b: "''2024-05-02'' \<notin> set (completedDates ex_habit)"
    by (simp add: ex_habit_def)
  have c: "find (grant_matches ''2024-05-02'') (xpGrantedDates ex_habit) = None"
    by (simp add: ex_habit_def)
  have d: "(9000::int) - 5000 < UNDO_WINDOW_MS"
    by (simp add: UNDO_WINDOW_MS_def)
  have e: "\<forall>u. map_of (users ex_db) (userId ex_habit) = Some u \<longrightarrow> 0 \<le> platformXp u"
    by (simp add: ex_db_def ex_habit_def ex_user_def)
  have f: "map_option platformXp (map_of (users ex_db) (userId ex_habit)) = Some 10"
    by (simp add: ex_db_def ex_habit_def ex_user_def)
  from C3_check_then_undo [OF a b c d e] f show ?thesis
    by auto
qed

text \<open>
  C4. When the grant of a completed date is 60 seconds old or older, unchecking the date
  signals XP delta \<open>0\<close>, removes the date from \<open>completedDates\<close> and keeps the grant
  records; re-checking it at any later time signals \<open>0\<close> again.
\<close>

theorem C4_late_uncheck_then_recheck:
  assumes chk: "date \<in> set (completedDates h)"
    and dist: "distinct (completedDates h)"
    and grant: "find (grant_matches date) (xpGrantedDates h) = Some (GrantObj d (Some g))"
    and old: "UNDO_WINDOW_MS \<le> now - g"
  shows "\<exists>h1 h2.
           toggle_habit h date now = (h1, 0)
         \<and> date \<notin> set (completedDates h1)
         \<and> xpGrantedDates h1 = xpGrantedDates h
         \<and> toggle_habit h1 date later = (h2, 0)
         \<and> xpGrantedDates h2 = xpGrantedDates h"
proof -
  define h1 where "h1 = h\<lparr>completedDates := sort (remove1 date (completedDates h)),
        currentStreak := int (length (completedDates h) - 1)\<rparr>"
  define h2 where "h2 = h1\<lparr>completedDates := sort (completedDates h1 @ [date]),
        currentStreak := int (length (completedDates h1)) + 1\<rparr>"
  have late: "\<not> now - g < UNDO_WINDOW_MS"
    using old by linarith
  have t1: "toggle_habit h date now = (h1, 0)"
    unfolding h1_def using chk grant late by (rule toggle_habit_late)
  have out: "date \<notin> set (completedDates h1)"
    using dist by (simp add: h1_def)
  have present: "truthy_entry (find (grant_matches date) (xpGrantedDates h1))"
    using grant by (simp add: h1_def)
  have t2: "toggle_habit h1 date later = (h2, 0)"
    unfolding h2_def using out present by (rule toggle_habit_recheck)
  show ?thesis
    using t1 t2 out by (simp add: h1_def h2_def)
qed

theorem C4_witness:
  "\<exists>h1 h2. toggle_habit ex_habit ''2024-05-01'' 61000 = (h1, 0)
         \<and> ''2024-05-01'' \<notin> set (completedDates h1)
         \<and> xpGrantedDates h1 = [GrantObj ''2024-05-01'' (Some 1000)]
         \<and> toggle_habit h1 ''2024-05-01'' 61001 = (h2, 0)
         \<and> xpGrantedDates h2 = [GrantObj ''2024-05-01'' (Some 1000)]"
proof -
  have a: "''2024-05-01'' \<in> set (completedDates ex_habit)"
    by (simp add: ex_habit_def)
  have b: "distinct (completedDates ex_habit)"
    by (simp add: ex_habit_def)
  have c: "find (grant_matches ''2024-05-01'') (xpGrantedDates ex_habit)
             = Some (GrantObj ''2024-05-01'' (Some 1000))"
    by (simp add: ex_habit_def)
  have d: "UNDO_WINDOW_MS \<le> 61000 - 1000"
    by (simp add: UNDO_WINDOW_MS_def)
  have e: "xpGrantedDates ex_habit = [GrantObj ''2024-05-01'' (Some 1000)]"
    by (simp add: ex_habit_def)
  from C4_late_uncheck_then_recheck [OF a b c d, of 61001] e show ?thesis
    by auto
qed

text \<open>
  C10. A toggle whose computed XP delta is \<open>0\<close> leaves the \<open>users\<close> collection as it
  was: no user is saved, and the response reports the stored XP and level.
\<close>

theorem C10_zero_delta_leaves_user:
  assumes hab: "map_of (habits s) hid = Some h"
    and zero: "snd (toggle_habit h date now) = 0"
  shows "\<exists>s' r. toggle_route s hid date now = Inr (s', r)
           \<and> users s' = users s
           \<and> userXp r = map_option platformXp (map_of (users s) (userId h))
           \<and> userLv r = map_option level (map_of (users s) (userId h))"
  using zero by (simp add: toggle_route_found [OF hab] Let_def split: option.splits)

theorem C10_witness:
  "\<exists>s' r. toggle_route ex_db 11 ''2024-05-01'' 61000 = Inr (s', r)
           \<and> users s' = users ex_db \<and> userXp r = Some 10 \<and> userLv r = Some 1"
proof -
  have a: "map_of (habits ex_db) 11 = Some ex_habit"
    by (simp add: ex_db_def)
  have "toggle_habit ex_habit ''2024-05-01'' 61000 =
      (ex_habit\<lparr>completedDates := sort (remove1 ''2024-05-01'' (completedDates ex_habit)),
        currentStreak := int (length (completedDates ex_habit) - 1)\<rparr>, 0)"
    by (rule toggle_habit_late [where d = "''2024-05-01''" and g = 1000])
       (simp_all add: ex_habit_def UNDO_WINDOW_MS_def)
  then have b: "snd (toggle_habit ex_habit ''2024-05-01'' 61000) = 0"
    by simp
  have c: "map_of (users ex_db) (userId ex_habit) = Some ex_user"
    by (simp add: ex_db_def ex_habit_def)
  have d: "platformXp ex_user = 10" "level ex_user = 1"
    by (simp_all add: ex_user_def)
  from C10_zero_delta_leaves_user [OF a b] c d show ?thesis
    by auto
qed

section \<open>Properties of XP accounting\<close>

lemma toggle_habit_distinct:
  "distinct (completedDates h) \<Longrightarrow> distinct (completedDates (fst (toggle_habit h date now)))"
  by (simp add: toggle_habit_def Let_def split: option.splits)

lemma hell_week_penalty_found:
  assumes "hell_week_route s uid a t1 t2 = Inr s'" and "a = Surrender \<or> a = Fail"
  shows "\<exists>u u'. map_of (users s) uid = Some u \<and> map_of (users s') uid = Some u'
            \<and> platformXp u' = max 0 (platformXp u - (if a = Surrender then 700 else 500))
            \<and> level u' = level u \<and> \<not> isActive (hellWeek u')"
  using assms by (auto simp: hell_week_route_def split: option.splits)

lemma surrender_route_user:
  assumes "surrender_route s hid = Inr s'" and "map_of (habits s) hid = Some h"
  shows "map_of (users s') (userId h) =
           map_option (\<lambda>u. u\<lparr>platformXp := max 0 (js_or (platformXp u) 0 - 100)\<rparr>)
             (map_of (users s) (userId h))"
  using assms
  by (auto simp: surrender_route_def Let_def split: option.splits prod.splits)

lemma surrender_route_returns:
  "map_of (habits s) hid = Some h \<Longrightarrow> \<exists>s'. surrender_route s hid = Inr s'"
  by (simp add: surrender_route_def Let_def split: option.splits)

text \<open>
  C5. No XP-changing operation leaves \<open>platformXp\<close> below \<open>0\<close>: the user update of
  the habit toggle for every delta (with or without the Hell Week multiplier), the toggle
  route whenever its delta is not \<open>0\<close>, the Hell Week surrender and fail penalties, and
  the battle surrender penalty.
\<close>

theorem C5_platformXp_never_negative:
  "(\<forall>u x. 0 \<le> platformXp (toggle_user u x))
   \<and> (\<forall>s hid h date now s' r u'.
         map_of (habits s) hid = Some h \<and> snd (toggle_habit h date now) \<noteq> 0
         \<and> toggle_route s hid date now = Inr (s', r) \<and> map_of (users s') (userId h) = Some u'
         \<longrightarrow> 0 \<le> platformXp u')
   \<and> (\<forall>s uid a t1 t2 s' u'.
         (a = Surrender \<or> a = Fail) \<and> hell_week_route s uid a t1 t2 = Inr s'
         \<and> map_of (users s') uid = Some u'
         \<longrightarrow> 0 \<le> platformXp u')
   \<and> (\<forall>s hid h s' u'.
         map_of (habits s) hid = Some h \<and> surrender_route s hid = Inr s'
         \<and> map_of (users s') (userId h) = Some u'
         \<longrightarrow> 0 \<le> platformXp u')"
proof (intro conjI allI impI)
  fix u x show "0 \<le> platformXp (toggle_user u x)"
    by (rule toggle_user_xp_nonneg)
next
  fix s hid h date now s' r u'
  assume a: "map_of (habits s) hid = Some h \<and> snd (toggle_habit h date now) \<noteq> 0
         \<and> toggle_route s hid date now = Inr (s', r) \<and> map_of (users s') (userId h) = Some u'"
  then show "0 \<le> platformXp u'"
    by (auto simp: toggle_route_found Let_def toggle_user_xp_nonneg split: option.splits)
next
  fix s uid a t1 t2 s' u'
  assume "(a = Surrender \<or> a = Fail) \<and> hell_week_route s uid a t1 t2 = Inr s'
         \<and> map_of (users s') uid = Some u'"
  then show "0 \<le> platformXp u'"
    using hell_week_penalty_found [of s uid a t1 t2 s'] by auto
next
  fix s hid h s' u'
  assume "map_of (habits s) hid = Some h \<and> surrender_route s hid = Inr s'
         \<and> map_of (users s') (userId h) = Some u'"
  then show "0 \<le> platformXp u'"
    using surrender_route_user [of s hid s' h]
    by (cases "map_of (users s) (userId h)") auto
qed


theorem C5_witness:
  "(\<exists>s' r u'. toggle_route ex_db 11 ''2024-05-01'' 2000 = Inr (s', r)
       \<and> map_of (users s') 7 = Some u' \<and> 0 \<le> platformXp u' \<and> userXp r = Some 0)
   \<and> (\<exists>s' u'. hell_week_route ex_db 7 Surrender 0 0 = Inr s'
       \<and> map_of (users s') 7 = Some u' \<and> 0 \<le> platformXp u')
   \<and> (\<exists>s' u'. surrender_route ex_db 21 = Inr s'
       \<and> map_of (users s') 8 = Some u' \<and> 0 \<le> platformXp u')"
proof -
  have hab: "map_of (habits ex_db) 11 = Some ex_habit"
    by (simp add: ex_db_def)
  have undo: "toggle_habit ex_habit ''2024-05-01'' 2000 =
      (ex_habit\<lparr>completedDates := sort (remove1 ''2024-05-01'' (completedDates ex_habit)),
        xpGrantedDates := filter (\<lambda>e. \<not> grant_matches ''2024-05-01'' e) (xpGrantedDates ex_habit),
        currentStreak := int (length (completedDates ex_habit) - 1)\<rparr>, - 15)"
    by (rule toggle_habit_undo [where d = "''2024-05-01''" and g = 1000])
       (simp_all add: ex_habit_def UNDO_WINDOW_MS_def)
  then have delta: "snd (toggle_habit ex_habit ''2024-05-01'' 2000) \<noteq> 0"
    by simp
  have owner: "userId ex_habit = 7" "map_of (users ex_db) 7 = Some ex_user"
    by (simp_all add: ex_habit_def ex_db_def)
  define s1 where "s1 = save_user 7 (toggle_user ex_user (- 15))
      (save_habit 11 (fst (toggle_habit ex_habit ''2024-05-01'' 2000)) ex_db)"
  define r1 where "r1 = \<lparr>resp_habit = fst (toggle_habit ex_habit ''2024-05-01'' 2000),
      userLv = Some (level (toggle_user ex_user (- 15))),
      userXp = Some (platformXp (toggle_user ex_user (- 15)))\<rparr>"
  have run: "toggle_route ex_db 11 ''2024-05-01'' 2000 = Inr (s1, r1)"
    using undo owner by (simp add: toggle_route_found [OF hab] s1_def r1_def Let_def)
  have u1: "map_of (users s1) 7 = Some (toggle_user ex_user (- 15))"
    by (simp add: s1_def)
  have x1: "userXp r1 = Some (platformXp (toggle_user ex_user (- 15)))"
    by (simp add: r1_def)
  have zero: "platformXp (toggle_user ex_user (- 15)) = 0"
    by (simp add: toggle_user_def ex_user_def js_or_def)
  have "0 \<le> platformXp (toggle_user ex_user (- 15))"
    using C5_platformXp_never_negative hab delta run u1 owner by metis
  then have first: "\<exists>s' r u'. toggle_route ex_db 11 ''2024-05-01'' 2000 = Inr (s', r)
       \<and> map_of (users s') 7 = Some u' \<and> 0 \<le> platformXp u' \<and> userXp r = Some 0"
    using run u1 x1 zero by auto
  define u2 where "u2 = ex_user\<lparr>hellWeek := \<lparr>isActive = False, startDate = None, targetDate = None\<rparr>,
      platformXp := max 0 (platformXp ex_user - 700)\<rparr>"
  define s2 where "s2 = save_user 7 u2 ex_db"
  have hw: "hell_week_route ex_db 7 Surrender 0 0 = Inr s2"
    using owner by (simp add: hell_week_route_def s2_def u2_def)
  have hu: "map_of (users s2) 7 = Some u2"
    by (simp add: s2_def)
  have "0 \<le> platformXp u2"
    using C5_platformXp_never_negative hw hu by metis
  then have second: "\<exists>s' u'. hell_week_route ex_db 7 Surrender 0 0 = Inr s'
       \<and> map_of (users s') 7 = Some u' \<and> 0 \<le> platformXp u'"
    using hw hu by auto
  have bat: "map_of (habits ex_db) 21 = Some (ex_battle 8 9)" "userId (ex_battle 8 9) = 8"
    by (simp_all add: ex_db_def ex_battle_def)
  obtain s3 where sr: "surrender_route ex_db 21 = Inr s3"
    using surrender_route_returns [OF bat(1)] by blast
  then obtain u3 where su: "map_of (users s3) 8 = Some u3"
    using surrender_route_user [OF sr bat(1)] bat(2) by (simp add: ex_db_def)
  have "0 \<le> platformXp u3"
    using C5_platformXp_never_negative bat sr su by metis
  then have third: "\<exists>s' u'. surrender_route ex_db 21 = Inr s'
       \<and> map_of (users s') 8 = Some u' \<and> 0 \<le> platformXp u'"
    using sr su by auto
  from first second third show ?thesis
    by simp
qed

section \<open>Properties of level recomputation and Hell Week\<close>

text \<open>
  On the main server every recomputation of the level from XP (habit toggle, get-user
  self-healing, Hell Week complete) only raises it: the stored level stays or becomes the
  calculated one.
\<close>

lemma raise_only_level:
  "l \<le> max (js_or l 1) (calculateLevel xp)
   \<and> (max (js_or l 1) (calculateLevel xp) = l \<or> max (js_or l 1) (calculateLevel xp) = calculateLevel xp)"
  using calculateLevel_ge_1 [of xp] by (auto simp: js_or_def max_def)

lemma toggle_user_level:
  "level u \<le> level (toggle_user u x)
   \<and> (level (toggle_user u x) = level u
      \<or> level (toggle_user u x) = calculateLevel (platformXp (toggle_user u x)))"
  using raise_only_level [of "level u"] by (simp add: toggle_user_def Let_def)

lemma get_user_route_level:
  assumes "map_of (users s) uid = Some u"
  shows "\<exists>s' u'. get_user_route s uid = Inr (s', u')
           \<and> map_of (users s') uid = Some u'
           \<and> level u \<le> level u'
           \<and> (level u' = level u \<or> level u' = calculateLevel (platformXp u'))"
  using assms by (auto simp: get_user_route_def Let_def js_or_def split: if_splits)

lemma hell_week_complete_level:
  assumes "map_of (users s) uid = Some u"
  shows "\<exists>s' u'. hell_week_route s uid Complete t1 t2 = Inr s'
           \<and> map_of (users s') uid = Some u'
           \<and> level u \<le> level u'
           \<and> (level u' = level u \<or> level u' = calculateLevel (platformXp u'))"
  using assms raise_only_level [of "level u" "js_or (platformXp u) 0 + 1000"]
  by (simp add: hell_week_route_def Let_def)

lemma calculateLevel_below_100: "xp < 100 \<Longrightarrow> calculateLevel xp = 1"
  by (simp add: calculateLevel_def LEVEL_THRESHOLDS_def level_loop.simps)

text \<open>
  C2. The serverless variant of GET /user/:id overwrites the level whenever it differs from
  the calculated one: a user of level 4 whose XP fell to 50 (after a Hell Week penalty) is
  set back to level 1, where the main server's route leaves the user as stored.
\<close>

theorem C2_serverless_get_user_lowers_level:
  "level ex_veteran = 4
   \<and> (\<exists>s' u'. sl_get_user_route ex_db 9 = Inr (s', u')
        \<and> map_of (users s') 9 = Some u' \<and> level u' = 1)
   \<and> get_user_route ex_db 9 = Inr (ex_db, ex_veteran)"
  by (simp add: sl_get_user_route_def get_user_route_def ex_db_def ex_veteran_def js_or_def
      calculateLevel_below_100 Let_def)

text \<open>
  The serverless toggle overwrites the level in the same way: unchecking a date takes the
  same user from level 4 to level 1.
\<close>

lemma sl_toggle_user_lowers_level:
  "level (sl_toggle_user ex_veteran (- 15)) = 1 \<and> level (toggle_user ex_veteran (- 15)) = 4"
  by (simp add: sl_toggle_user_def toggle_user_def ex_veteran_def js_or_def Let_def
      calculateLevel_below_100)

text \<open>
  The start action on the main server: rejected when Hell Week is active or the level is
  below 4, otherwise the user is saved with an active Hell Week whose target date is the
  clock reading plus 7 days.
\<close>

lemma hell_week_start:
  assumes "map_of (users s) uid = Some u"
  shows "hell_week_route s uid Start t_start t_now =
     (if isActive (hellWeek u) then Inl (BadRequest ''Already in hell'')
      else if level u < 4 then Inl (BadRequest ''Hell Week requires Level 4'')
      else Inr (save_user uid
             (u\<lparr>hellWeek := \<lparr>isActive = True, startDate = Some t_start,
                              targetDate = Some (t_now + 604800000)\<rparr>\<rparr>) s))"
  using assms by (simp add: hell_week_route_def js_or_def)

text \<open>
  C6. The serverless variant of the start action has no level check: a user of level 1
  who is not in Hell Week is accepted and becomes active, where the main server's route
  answers with the domain error.
\<close>

theorem C6_serverless_start_ignores_level:
  "level ex_novice < 4 \<and> \<not> isActive (hellWeek ex_novice)
   \<and> (\<exists>s' u'. sl_hell_week_route ex_db 8 Start 1000 1000 = Inr s'
        \<and> map_of (users s') 8 = Some u' \<and> isActive (hellWeek u'))
   \<and> hell_week_route ex_db 8 Start 1000 1000 = Inl (BadRequest ''Hell Week requires Level 4'')"
  by (simp add: sl_hell_week_route_def hell_week_route_def ex_db_def ex_novice_def js_or_def)

section \<open>Properties of battle surrender and of the friend graph\<close>

lemma find_opponent_other:
  "find_opponent s hid my = Some (k, oh) \<Longrightarrow> k \<noteq> hid \<and> sharedGroupId oh = sharedGroupId my"
  by (auto simp: find_opponent_def find_Some_iff)

text \<open>
  C7. When one participant of a battle pair surrenders, both linked records get
  \<open>battleStatus\<close> completed and \<open>battleWinner\<close> the owner of the other record (the
  non-surrendering participant), and the surrendering user's \<open>platformXp\<close> drops by 100,
  floored at 0. The pair is the surrendering record, the record \<open>find_opponent\<close> links to
  it, and \<open>partnerId\<close> naming that record's owner.
\<close>

theorem C7_surrender_completes_both:
  assumes mine: "map_of (habits s) hid = Some my"
    and theirs: "find_opponent s hid my = Some (k, oh)"
    and linked: "partnerId my = Some (userId oh)"
    and owner: "map_of (users s) (userId my) = Some u"
  shows "\<exists>s'. surrender_route s hid = Inr s'
           \<and> map_of (habits s') hid
               = Some (my\<lparr>battleStatus := Completed, battleWinner := Some (userId oh)\<rparr>)
           \<and> map_of (habits s') k
               = Some (oh\<lparr>battleStatus := Completed, battleWinner := Some (userId oh)\<rparr>)
           \<and> map_of (users s') (userId my)
               = Some (u\<lparr>platformXp := max 0 (platformXp u - 100)\<rparr>)"
proof -
  have ne: "k \<noteq> hid"
    using find_opponent_other [OF theirs] by simp
  show ?thesis
    using mine theirs linked owner ne
    by (simp add: surrender_route_def Let_def js_or_def)
qed

theorem C7_witness:
  "\<exists>s'. surrender_route ex_db 21 = Inr s'
     \<and> map_option battleStatus (map_of (habits s') 21) = Some Completed
     \<and> map_option battleWinner (map_of (habits s') 21) = Some (Some 9)
     \<and> map_option battleStatus (map_of (habits s') 22) = Some Completed
     \<and> map_option battleWinner (map_of (habits s') 22) = Some (Some 9)
     \<and> map_option platformXp (map_of (users s') 8) = Some 0"
proof -
  have a: "map_of (habits ex_db) 21 = Some (ex_battle 8 9)"
    by (simp add: ex_db_def)
  have b: "find_opponent ex_db 21 (ex_battle 8 9) = Some (22, ex_battle 9 8)"
    by (simp add: find_opponent_def ex_db_def ex_battle_def ex_habit_def)
  have c: "partnerId (ex_battle 8 9) = Some (userId (ex_battle 9 8))"
    by (simp add: ex_battle_def)
  have d: "map_of (users ex_db) (userId (ex_battle 8 9)) = Some ex_novice"
    by (simp add: ex_db_def ex_battle_def)
  have e: "userId (ex_battle 8 9) = 8" "userId (ex_battle 9 8) = 9" "platformXp ex_novice = 40"
    by (simp_all add: ex_battle_def ex_novice_def)
  from C7_surrender_completes_both [OF a b c d] e show ?thesis
    by auto
qed


text \<open>
  In a store whose \<open>_id\<close>s are distinct, the opponent found for a record of a battle pair
  is the other record of the pair.
\<close>

lemma find_unique:
  "distinct (map fst al) \<Longrightarrow> (k, v) \<in> set al \<Longrightarrow> P (k, v)
   \<Longrightarrow> \<forall>(k', v') \<in> set al. P (k', v') \<longrightarrow> k' = k \<Longrightarrow> find P al = Some (k, v)"
proof (induction al)
  case Nil
  then show ?case by simp
next
  case (Cons p ps)
  show ?case
  proof (cases "P p")
    case True
    then have "fst p = k" using Cons.prems(4) by (cases p) auto
    then have "p = (k, v)" using Cons.prems(1,2) by (cases p) (auto simp: rev_image_eqI)
    then show ?thesis using True by simp
  next
    case False
    then have "(k, v) \<in> set ps" using Cons.prems(2,3) by auto
    then have "find P ps = Some (k, v)"
      using Cons.IH Cons.prems by auto
    then show ?thesis using False by simp
  qed
qed

lemma pair_find_opponent:
  assumes "distinct (map fst (habits s))"
    and "(k, oh) \<in> set (habits s)" and "k \<noteq> hid"
    and "sharedGroupId oh = sharedGroupId my"
    and "\<forall>(k', h') \<in> set (habits s). sharedGroupId h' = sharedGroupId my \<longrightarrow> k' = hid \<or> k' = k"
  shows "find_opponent s hid my = Some (k, oh)"
  unfolding find_opponent_def
  by (rule find_unique) (use assms in auto)

lemma find_save_doc_same:
  "find P al = Some (k, v) \<Longrightarrow> P (k, v') \<Longrightarrow> find P (save_doc k v' al) = Some (k, v')"
  by (induction al) (auto split: if_splits)

lemma add_friend_route_Inr:
  assumes "add_friend_route s uid code now = Inr s1"
  shows "\<exists>tid t sd.
           find (\<lambda>(k, u). friendCode u = Some (map to_upper code)) (users s) = Some (tid, t)
         \<and> map_of (users s) uid = Some sd \<and> uid \<noteq> tid \<and> tid \<notin> set (friends sd)
         \<and> find (\<lambda>r. fr_from r = uid) (friendRequests t) = None
         \<and> s1 = save_user tid
              (t\<lparr>friendRequests := friendRequests t @
                   [\<lparr>fr_from = uid, fr_status = ReqPending, fr_timestamp = now\<rparr>]\<rparr>) s"
  using assms
  by (auto simp: add_friend_route_def Let_def split: option.splits if_splits)

lemma add_friend_twice:
  assumes first: "add_friend_route s uid code now = Inr s1"
    and same: "map to_upper code' = map to_upper code"
  shows "add_friend_route s1 uid code' now' = Inl (BadRequest ''Request already sent.'')"
proof -
  let ?P = "\<lambda>(k, u). friendCode u = Some (map to_upper code)"
  obtain tid t sd where tgt: "find ?P (users s) = Some (tid, t)"
    and snd: "map_of (users s) uid = Some sd" and ne: "uid \<noteq> tid"
    and nf: "tid \<notin> set (friends sd)"
    and s1: "s1 = save_user tid
              (t\<lparr>friendRequests := friendRequests t @
                   [\<lparr>fr_from = uid, fr_status = ReqPending, fr_timestamp = now\<rparr>]\<rparr>) s"
    using add_friend_route_Inr [OF first] by blast
  define t' where "t' = t\<lparr>friendRequests := friendRequests t @
                   [\<lparr>fr_from = uid, fr_status = ReqPending, fr_timestamp = now\<rparr>]\<rparr>"
  have "?P (tid, t)"
    using tgt by (auto simp: find_Some_iff)
  then have "?P (tid, t')"
    by (simp add: t'_def)
  then have tgt1: "find ?P (users s1) = Some (tid, t')"
    using tgt unfolding s1 t'_def [symmetric] save_user_def
    by (simp add: find_save_doc_same)
  have snd1: "map_of (users s1) uid = Some sd"
    using snd ne by (simp add: s1)
  have queued: "find (\<lambda>r. fr_from r = uid) (friendRequests t') \<noteq> None"
    by (auto simp: t'_def find_None_iff)
  show ?thesis
    using tgt1 snd1 ne nf queued same
    by (simp add: add_friend_route_def)
qed

lemma handle_accept_once:
  assumes "map_of (users s) uid = Some u" and "map_of (users s) rid = Some rq"
    and "uid \<noteq> rid"
  shows "handle_request_route s uid rid Accept =
     Inr (save_user uid
            (u\<lparr>friendRequests := filter (\<lambda>r. fr_from r \<noteq> rid) (friendRequests u),
               friends := (if rid \<in> set (friends u) then friends u else friends u @ [rid])\<rparr>)
         (save_user rid
            (rq\<lparr>friends := (if uid \<in> set (friends rq) then friends rq else friends rq @ [uid])\<rparr>)
          s))"
  using assms by (simp add: handle_request_route_def Let_def)

text \<open>
  C9. After a friend request was accepted into the target's queue, a second request from
  the same sender with the same code (in any letter case) is rejected as already sent.
  Accepting a request between two distinct users who are not yet friends puts each on the
  other's \<open>friends\<close> list exactly once and removes the request; a second accept
  returns and leaves both users as the first left them.
\<close>

theorem C9_duplicate_rejected_accept_idempotent:
  "(\<forall>s uid code now s1 code' now'.
        add_friend_route s uid code now = Inr s1 \<and> map to_upper code' = map to_upper code
        \<longrightarrow> add_friend_route s1 uid code' now' = Inl (BadRequest ''Request already sent.''))
   \<and> (\<forall>s uid rid u rq.
        map_of (users s) uid = Some u \<and> map_of (users s) rid = Some rq \<and> uid \<noteq> rid
        \<and> rid \<notin> set (friends u) \<and> uid \<notin> set (friends rq)
        \<longrightarrow> (\<exists>s1 s2 u1 r1.
               handle_request_route s uid rid Accept = Inr s1
             \<and> handle_request_route s1 uid rid Accept = Inr s2
             \<and> map_of (users s1) uid = Some u1 \<and> map_of (users s1) rid = Some r1
             \<and> map_of (users s2) uid = Some u1 \<and> map_of (users s2) rid = Some r1
             \<and> friends u1 = friends u @ [rid] \<and> friends r1 = friends rq @ [uid]
             \<and> count_list (friends u1) rid = 1 \<and> count_list (friends r1) uid = 1
             \<and> find (\<lambda>r. fr_from r = rid) (friendRequests u1) = None))"
proof (intro conjI allI impI)
  fix s uid code now s1 code' now'
  assume "add_friend_route s uid code now = Inr s1 \<and> map to_upper code' = map to_upper code"
  then show "add_friend_route s1 uid code' now' = Inl (BadRequest ''Request already sent.'')"
    using add_friend_twice by blast
next
  fix s :: db and uid rid :: oid and u rq :: user
  assume a: "map_of (users s) uid = Some u \<and> map_of (users s) rid = Some rq \<and> uid \<noteq> rid
        \<and> rid \<notin> set (friends u) \<and> uid \<notin> set (friends rq)"
  define u1 where "u1 = u\<lparr>friendRequests := filter (\<lambda>r. fr_from r \<noteq> rid) (friendRequests u),
               friends := friends u @ [rid]\<rparr>"
  define r1 where "r1 = rq\<lparr>friends := friends rq @ [uid]\<rparr>"
  define s1 where "s1 = save_user uid u1 (save_user rid r1 s)"
  have first: "handle_request_route s uid rid Accept = Inr s1"
    using a by (simp add: handle_accept_once s1_def u1_def r1_def)
  have lu: "map_of (users s1) uid = Some u1" and lr: "map_of (users s1) rid = Some r1"
    using a by (simp_all add: s1_def)
  have second: "handle_request_route s1 uid rid Accept
      = Inr (save_user uid u1 (save_user rid r1 s1))"
    using a by (simp add: handle_accept_once [OF lu lr] u1_def r1_def)
  have lu2: "map_of (users (save_user uid u1 (save_user rid r1 s1))) uid = Some u1"
    and lr2: "map_of (users (save_user uid u1 (save_user rid r1 s1))) rid = Some r1"
    using a by simp_all
  have cu: "count_list (friends u1) rid = 1" and cr: "count_list (friends r1) uid = 1"
    using a by (simp_all add: u1_def r1_def count_list_0_iff)
  have gone: "find (\<lambda>r. fr_from r = rid) (friendRequests u1) = None"
    by (simp add: u1_def find_None_iff)
  show "\<exists>s1 s2 u1 r1.
               handle_request_route s uid rid Accept = Inr s1
             \<and> handle_request_route s1 uid rid Accept = Inr s2
             \<and> map_of (users s1) uid = Some u1 \<and> map_of (users s1) rid = Some r1
             \<and> map_of (users s2) uid = Some u1 \<and> map_of (users s2) rid = Some r1
             \<and> friends u1 = friends u @ [rid] \<and> friends r1 = friends rq @ [uid]
             \<and> count_list (friends u1) rid = 1 \<and> count_list (friends r1) uid = 1
             \<and> find (\<lambda>r. fr_from r = rid) (friendRequests u1) = None"
    using first second lu lr lu2 lr2 cu cr gone
    by (intro exI [of _ s1] exI [of _ "save_user uid u1 (save_user rid r1 s1)"]
          exI [of _ u1] exI [of _ r1]) (simp add: u1_def r1_def)
qed


lemma to_upper_example: "map to_upper ''vet3r'' = ''VET3R''" "map to_upper ''VET3R'' = ''VET3R''"
  by code_simp+

theorem C9_witness:
  "(\<exists>s1. add_friend_route ex_db 8 ''vet3r'' 100 = Inr s1
        \<and> add_friend_route s1 8 ''VET3R'' 200 = Inl (BadRequest ''Request already sent.''))
   \<and> (\<exists>s1 s2 u1 r1.
          handle_request_route ex_db 9 8 Accept = Inr s1
        \<and> handle_request_route s1 9 8 Accept = Inr s2
        \<and> map_of (users s2) 9 = Some u1 \<and> map_of (users s2) 8 = Some r1
        \<and> friends u1 = [8] \<and> friends r1 = [9])"
proof -
  define s1 where "s1 = save_user 9
      (ex_veteran\<lparr>friendRequests := [\<lparr>fr_from = 8, fr_status = ReqPending, fr_timestamp = 100\<rparr>]\<rparr>)
      ex_db"
  have sent: "add_friend_route ex_db 8 ''vet3r'' 100 = Inr s1"
    unfolding add_friend_route_def to_upper_example
    by (simp add: ex_db_def ex_user_def ex_novice_def ex_veteran_def s1_def)
  have "add_friend_route ex_db 8 ''vet3r'' 100 = Inr s1
        \<and> map to_upper ''VET3R'' = map to_upper ''vet3r''
      \<longrightarrow> add_friend_route s1 8 ''VET3R'' 200 = Inl (BadRequest ''Request already sent.'')"
    using C9_duplicate_rejected_accept_idempotent by blast
  then have "add_friend_route s1 8 ''VET3R'' 200 = Inl (BadRequest ''Request already sent.'')"
    using sent by (simp only: to_upper_example simp_thms)
  then have first: "\<exists>s1. add_friend_route ex_db 8 ''vet3r'' 100 = Inr s1
        \<and> add_friend_route s1 8 ''VET3R'' 200 = Inl (BadRequest ''Request already sent.'')"
    using sent by blast
  have pre: "map_of (users ex_db) 9 = Some ex_veteran \<and> map_of (users ex_db) 8 = Some ex_novice
      \<and> (9::nat) \<noteq> 8 \<and> 8 \<notin> set (friends ex_veteran) \<and> 9 \<notin> set (friends ex_novice)"
    by (simp add: ex_db_def ex_veteran_def ex_novice_def)
  have fr: "friends ex_veteran = []" "friends ex_novice = []"
    by (simp_all add: ex_veteran_def ex_novice_def)
  have "\<exists>s1 s2 u1 r1.
               handle_request_route ex_db 9 8 Accept = Inr s1
             \<and> handle_request_route s1 9 8 Accept = Inr s2
             \<and> map_of (users s1) 9 = Some u1 \<and> map_of (users s1) 8 = Some r1
             \<and> map_of (users s2) 9 = Some u1 \<and> map_of (users s2) 8 = Some r1
             \<and> friends u1 = friends ex_veteran @ [8] \<and> friends r1 = friends ex_novice @ [9]
             \<and> count_list (friends u1) 8 = 1 \<and> count_list (friends r1) 9 = 1
             \<and> find (\<lambda>r. fr_from r = 8) (friendRequests u1) = None"
    using C9_duplicate_rejected_accept_idempotent pre by blast
  then have second: "\<exists>s1 s2 u1 r1.
          handle_request_route ex_db 9 8 Accept = Inr s1
        \<and> handle_request_route s1 9 8 Accept = Inr s2
        \<and> map_of (users s2) 9 = Some u1 \<and> map_of (users s2) 8 = Some r1
        \<and> friends u1 = [8] \<and> friends r1 = [9]"
    using fr by fastforce
  from first second show ?thesis
    by blast
qed

section \<open>Properties of habit creation\<close>

lemma new_habit_valid:
  assumes "req_name body = Some n" and "trim n \<noteq> []"
  shows "new_habit body (Some u) pid gid ty st vis dur =
     Inr \<lparr>userId = u, hname = trim n, completedDates = [], xpGrantedDates = [],
          currentStreak = 0, partnerId = pid, sharedGroupId = gid, htype = ty,
          battleStatus = st, battleDuration = dur, battleStartDate = None,
          battleWinner = None, isVisible = (case vis of None \<Rightarrow> True | Some b \<Rightarrow> b)\<rparr>"
  using assms by (simp add: new_habit_def)

lemma trim_example:
  "trim [0x50, 0x75, 0x73, 0x68, 0x75, 0x70, 0x73] = [0x50, 0x75, 0x73, 0x68, 0x75, 0x70, 0x73]"
  by (simp add: trim_def is_ws_def)

text \<open>
  A name of white space only, a no-break space for one, is trimmed to the empty string and
  fails the schema's \<open>required\<close>: nothing is created.
\<close>

lemma blank_name_rejected:
  "trim [0x00A0] = [] \<and> trim [0x0020, 0x3000, 0x0009] = []
   \<and> create_habit_route s (body\<lparr>req_name := Some [0x00A0]\<rparr>) = Inl ValidationError"
  by (simp add: trim_def is_ws_def create_habit_route_def new_habit_def
      split: option.splits)

text \<open>
  C1. For the request \<open>{userId: 8, name: 'Pushups', partnerId: 9}\<close> the main server creates
  exactly two habit records sharing the group id taken from the generator, both battles,
  the creator's waiting, the invitee's pending, hidden and with the creator as partner; but
  the creator's record is stored with \<open>isVisible\<close> false, where the claim has it visible.
  The serverless variant of the route stores the same two records with the creator's record
  visible.
\<close>

theorem C1_main_server_hides_creator_record:
  "create_habit_route ex_db ex_body =
     Inr (ex_db\<lparr>habits := habits ex_db @ [(31, ex_creator), (32, ex_invitee)], next_oid := 33\<rparr>,
          ex_creator)
   \<and> battleStatus ex_creator = Waiting \<and> htype ex_creator = Battle
   \<and> sharedGroupId ex_creator = sharedGroupId ex_invitee
   \<and> \<not> isVisible ex_creator
   \<and> sl_create_habit_route ex_db ex_body =
     Inr (ex_db\<lparr>habits := habits ex_db @ [(31, ex_creator\<lparr>isVisible := True\<rparr>), (32, ex_invitee)],
                next_oid := 33\<rparr>,
          ex_creator\<lparr>isVisible := True\<rparr>)"
  by (simp add: create_habit_route_def sl_create_habit_route_def new_habit_def trim_example
      duration_or_7_def ex_body_def ex_creator_def ex_invitee_def ex_db_def)

text \<open>
  What the two variants of the route do on every request that carries a \<open>partnerId\<close> and
  passes schema validation: two records are appended, sharing the generator's next id as
  group id (unused in a store whose ids came from the generator); the invitee's record is a
  pending, hidden battle with the creator as partner; the creator's record is a waiting
  battle, hidden on the main server, and on the serverless variant visible unless the
  request body says otherwise.
\<close>

lemma group_id_unused:
  assumes "ids_allocated s"
  shows "list_all (\<lambda>(k, h). sharedGroupId h \<noteq> Some (next_oid s)) (habits s)"
  using assms unfolding ids_allocated_def list_all_iff
  by (auto split: option.splits)

lemma create_pair:
  assumes partner: "req_partnerId body = Some partner"
    and creator: "req_userId body = Some creator"
    and named: "req_name body = Some n" "trim n \<noteq> []"
  shows "\<exists>c i.
           create_habit_route s body =
             Inr (s\<lparr>habits := habits s @ [(next_oid s + 1, c), (next_oid s + 2, i)],
                    next_oid := next_oid s + 3\<rparr>, c)
         \<and> sharedGroupId c = Some (next_oid s) \<and> sharedGroupId i = Some (next_oid s)
         \<and> (ids_allocated s \<longrightarrow>
               list_all (\<lambda>(k, h). sharedGroupId h \<noteq> Some (next_oid s)) (habits s))
         \<and> userId c = creator \<and> partnerId c = Some partner
         \<and> htype c = Battle \<and> battleStatus c = Waiting \<and> \<not> isVisible c
         \<and> userId i = partner \<and> partnerId i = Some creator
         \<and> htype i = Battle \<and> battleStatus i = Pending \<and> \<not> isVisible i
         \<and> battleDuration i = battleDuration c"
proof -
  define c where "c = \<lparr>userId = creator, hname = trim n, completedDates = [],
      xpGrantedDates = [], currentStreak = 0, partnerId = Some partner,
      sharedGroupId = Some (next_oid s), htype = Battle, battleStatus = Waiting,
      battleDuration = duration_or_7 (req_battleDuration body), battleStartDate = None,
      battleWinner = None, isVisible = False\<rparr>"
  define i where "i = \<lparr>userId = partner, hname = trim n, completedDates = [],
      xpGrantedDates = [], currentStreak = 0, partnerId = Some creator,
      sharedGroupId = Some (next_oid s), htype = Battle, battleStatus = Pending,
      battleDuration = duration_or_7 (req_battleDuration body), battleStartDate = None,
      battleWinner = None, isVisible = False\<rparr>"
  have run: "create_habit_route s body =
      Inr (s\<lparr>habits := habits s @ [(next_oid s + 1, c), (next_oid s + 2, i)],
             next_oid := next_oid s + 3\<rparr>, c)"
    using assms by (simp add: create_habit_route_def new_habit_valid Let_def c_def i_def)
  show ?thesis
    using run group_id_unused [of s]
    by (intro exI [of _ c] exI [of _ i]) (simp add: c_def i_def)
qed

lemma sl_create_pair:
  assumes partner: "req_partnerId body = Some partner"
    and creator: "req_userId body = Some creator"
    and named: "req_name body = Some n" "trim n \<noteq> []"
  shows "\<exists>c i.
           sl_create_habit_route s body =
             Inr (s\<lparr>habits := habits s @ [(next_oid s + 1, c), (next_oid s + 2, i)],
                    next_oid := next_oid s + 3\<rparr>, c)
         \<and> sharedGroupId c = Some (next_oid s) \<and> sharedGroupId i = Some (next_oid s)
         \<and> htype c = Battle \<and> battleStatus c = Waiting
         \<and> isVisible c = (case req_isVisible body of None \<Rightarrow> True | Some b \<Rightarrow> b)
         \<and> userId i = partner \<and> partnerId i = Some creator
         \<and> htype i = Battle \<and> battleStatus i = Pending \<and> \<not> isVisible i"
proof -
  define c where "c = \<lparr>userId = creator, hname = trim n, completedDates = [],
      xpGrantedDates = [], currentStreak = 0, partnerId = Some partner,
      sharedGroupId = Some (next_oid s), htype = Battle, battleStatus = Waiting,
      battleDuration = duration_or_7 (req_battleDuration body), battleStartDate = None,
      battleWinner = None,
      isVisible = (case req_isVisible body of None \<Rightarrow> True | Some b \<Rightarrow> b)\<rparr>"
  define i where "i = \<lparr>userId = partner, hname = trim n, completedDates = [],
      xpGrantedDates = [], currentStreak = 0, partnerId = Some creator,
      sharedGroupId = Some (next_oid s), htype = Battle, battleStatus = Pending,
      battleDuration = duration_or_7 (req_battleDuration body), battleStartDate = None,
      battleWinner = None, isVisible = False\<rparr>"
  have run: "sl_create_habit_route s body =
      Inr (s\<lparr>habits := habits s @ [(next_oid s + 1, c), (next_oid s + 2, i)],
             next_oid := next_oid s + 3\<rparr>, c)"
    using assms by (simp add: sl_create_habit_route_def new_habit_valid Let_def c_def i_def)
  show ?thesis
    using run by (intro exI [of _ c] exI [of _ i]) (simp add: c_def i_def)
qed

section \<open>Invariants of the stored users\<close>

lemma save_doc_mem: "(k, x) \<in> set (save_doc k' v' al) \<Longrightarrow> x = v' \<or> (k, x) \<in> set al"
  by (induction al) (auto split: if_splits)

lemma save_user_mem:
  "(k, x) \<in> set (users (save_user k' u' s)) \<Longrightarrow> x = u' \<or> (k, x) \<in> set (users s)"
  by (auto simp: save_user_def dest: save_doc_mem)

lemma find_Some_mem: "find P xs = Some x \<Longrightarrow> x \<in> set xs"
  by (induction xs) (auto split: if_splits)

text \<open>
  Once every stored \<open>platformXp\<close> is non-negative (a new user starts at 0), every route of
  the main server keeps it so.
\<close>

lemma xp_nonneg_invariant:
  assumes inv: "\<forall>(k, u) \<in> set (users s). 0 \<le> platformXp u"
  shows "toggle_route s hid date now = Inr (s', r) \<Longrightarrow> \<forall>(k, u) \<in> set (users s'). 0 \<le> platformXp u"
    and "hell_week_route s uid a t1 t2 = Inr s' \<Longrightarrow> \<forall>(k, u) \<in> set (users s'). 0 \<le> platformXp u"
    and "surrender_route s hid = Inr s' \<Longrightarrow> \<forall>(k, u) \<in> set (users s'). 0 \<le> platformXp u"
    and "get_user_route s uid = Inr (s', u') \<Longrightarrow> \<forall>(k, u) \<in> set (users s'). 0 \<le> platformXp u"
    and "add_friend_route s uid code now = Inr s' \<Longrightarrow> \<forall>(k, u) \<in> set (users s'). 0 \<le> platformXp u"
    and "handle_request_route s uid rid act = Inr s' \<Longrightarrow> \<forall>(k, u) \<in> set (users s'). 0 \<le> platformXp u"
    and "create_habit_route s body = Inr (s', h) \<Longrightarrow> \<forall>(k, u) \<in> set (users s'). 0 \<le> platformXp u"
proof -
  show "toggle_route s hid date now = Inr (s', r) \<Longrightarrow> \<forall>(k, u) \<in> set (users s'). 0 \<le> platformXp u"
    using inv
    by (auto simp: toggle_route_def Let_def split_beta toggle_user_xp_nonneg
        split: option.splits if_splits dest!: save_user_mem)
  show "hell_week_route s uid a t1 t2 = Inr s' \<Longrightarrow> \<forall>(k, u) \<in> set (users s'). 0 \<le> platformXp u"
    using inv
    by (cases a)
       (auto simp: hell_week_route_def Let_def js_or_def split: option.splits if_splits
          dest!: save_user_mem map_of_SomeD)
  show "surrender_route s hid = Inr s' \<Longrightarrow> \<forall>(k, u) \<in> set (users s'). 0 \<le> platformXp u"
    using inv
    by (auto simp: surrender_route_def Let_def split: option.splits prod.splits
        dest!: save_user_mem)
  show "get_user_route s uid = Inr (s', u') \<Longrightarrow> \<forall>(k, u) \<in> set (users s'). 0 \<le> platformXp u"
    using inv
    by (auto simp: get_user_route_def Let_def split: option.splits if_splits
        dest!: save_user_mem map_of_SomeD)
  show "add_friend_route s uid code now = Inr s' \<Longrightarrow> \<forall>(k, u) \<in> set (users s'). 0 \<le> platformXp u"
  proof -
    assume "add_friend_route s uid code now = Inr s'"
    then obtain tid t where "(tid, t) \<in> set (users s)"
      and "s' = save_user tid
              (t\<lparr>friendRequests := friendRequests t @
                   [\<lparr>fr_from = uid, fr_status = ReqPending, fr_timestamp = now\<rparr>]\<rparr>) s"
      using add_friend_route_Inr [of s uid code now s'] by (auto dest: find_Some_mem)
    then show ?thesis
      using inv by (auto dest!: save_user_mem)
  qed
  show "handle_request_route s uid rid act = Inr s' \<Longrightarrow> \<forall>(k, u) \<in> set (users s'). 0 \<le> platformXp u"
    using inv
    by (auto simp: handle_request_route_def Let_def split: option.splits if_splits
        dest!: save_user_mem map_of_SomeD)
  show "create_habit_route s body = Inr (s', h) \<Longrightarrow> \<forall>(k, u) \<in> set (users s'). 0 \<le> platformXp u"
    using inv
    by (auto simp: create_habit_route_def Let_def split: option.splits sum.splits)
qed

end
